theory Spec2Isabelle
  imports Main
begin

section \<open>Data model: the test tree\<close>

text \<open>
  The tree handed to the host is made of the two object shapes of
  \<^verbatim>\<open>vscode-test-adapter-api\<close>: \<^verbatim>\<open>TestInfo\<close> (type "test", no \<^verbatim>\<open>children\<close>
  property) and \<^verbatim>\<open>TestSuiteInfo\<close> (type "suite", with a \<^verbatim>\<open>children\<close> array).
  The optional properties \<^verbatim>\<open>file\<close>, \<^verbatim>\<open>line\<close> and \<^verbatim>\<open>skipped\<close> are options:
  \<open>None\<close> is the absent (undefined) property.  Strings are byte strings.
\<close>

datatype node =
    TestInfo (node_id: string) (node_label: string) (node_file: "string option")
             (node_line: "int option") (node_skipped: "bool option")
  | TestSuiteInfo (node_id: string) (node_label: string) (node_file: "string option")
             (node_line: "int option") (suite_children: "node list")

text \<open>The \<^verbatim>\<open>children\<close> property read on either shape: undefined on a test.\<close>

fun children_of :: "node \<Rightarrow> node list option" where
  "children_of (TestInfo i l f ln sk) = None"
| "children_of (TestSuiteInfo i l f ln cs) = Some cs"

text \<open>Assigning the \<^verbatim>\<open>children\<close> array of a suite (the in-place pushes of the
  recursive merge, seen from the enclosing array).\<close>

fun with_children :: "node list \<Rightarrow> node \<Rightarrow> node" where
  "with_children cs (TestSuiteInfo i l f ln old) = TestSuiteInfo i l f ln cs"
| "with_children cs (TestInfo i l f ln sk) = TestInfo i l f ln sk"

text \<open>Updating, inside an array, the first element that satisfies a predicate:
  the element \<^verbatim>\<open>Array.prototype.find\<close> returns is the object that is mutated.\<close>

fun update_first :: "('a \<Rightarrow> bool) \<Rightarrow> ('a \<Rightarrow> 'a) \<Rightarrow> 'a list \<Rightarrow> 'a list" where
  "update_first P g [] = []"
| "update_first P g (x # xs) = (if P x then g x # xs else x # update_first P g xs)"

section \<open>JestToTestAdapterMapper.merge\<close>

text \<open>
  \<^verbatim>\<open>merge(mergeDestination, mergeSource)\<close> walks the source with \<^verbatim>\<open>forEach\<close>;
  \<open>mergeEntry\<close> is the body of that callback.  The destination array is mutated
  in place and returned; here it is passed and returned.  The model is of
  destination and source that share no object (the callers pass a fresh
  \<^verbatim>\<open>[]\<close> and freshly built suites).
\<close>

function merge :: "node list \<Rightarrow> node list \<Rightarrow> node list"
  and mergeEntry :: "node list \<Rightarrow> node \<Rightarrow> node list" where
  "merge mergeDestination [] = mergeDestination"
| "merge mergeDestination (suiteResult # rest) =
     merge (mergeEntry mergeDestination suiteResult) rest"
| "mergeEntry mergeDestination suiteResult =
     (case find (\<lambda>result. node_id result = node_id suiteResult) mergeDestination of
        None \<Rightarrow> mergeDestination @ [suiteResult]
      | Some existingResult \<Rightarrow>
          (case children_of existingResult of
             None \<Rightarrow> mergeDestination @ [suiteResult]
           | Some existingChildren \<Rightarrow>
               (case children_of suiteResult of
                  None \<Rightarrow> mergeDestination @ [suiteResult]
                | Some sourceChildren \<Rightarrow>
                    update_first (\<lambda>result. node_id result = node_id suiteResult)
                      (with_children (merge existingChildren sourceChildren))
                      mergeDestination)))"
  by pat_completeness auto
termination
proof (relation "measure (\<lambda>x. case x of Inl (d, src) \<Rightarrow> 2 * size_list size src
                                        | Inr (d, s) \<Rightarrow> 2 * size s + 1)")
  fix mergeDestination :: "node list" and suiteResult sourceChildren existingResult existingChildren
  assume "children_of suiteResult = Some sourceChildren"
  then have "size_list size sourceChildren < size suiteResult"
    by (cases suiteResult) auto
  then show "(Inl (existingChildren, sourceChildren), Inr (mergeDestination, suiteResult))
       \<in> measure (\<lambda>x. case x of Inl (d, src) \<Rightarrow> 2 * size_list size src
                                  | Inr (d, s) \<Rightarrow> 2 * size s + 1)"
    by simp
qed auto

section \<open>JavaScript strings\<close>

text \<open>\<^verbatim>\<open>String.prototype.includes\<close>: the argument occurs as a substring.\<close>

fun js_includes :: "string \<Rightarrow> string \<Rightarrow> bool" where
  "js_includes [] sep = (sep = [])"
| "js_includes (c # cs) sep = (take (length sep) (c # cs) = sep \<or> js_includes cs sep)"

text \<open>
  \<^verbatim>\<open>String.prototype.split\<close> with a string separator.  \<open>split_scan\<close> is the
  scan for a non-empty separator: \<open>cur\<close> holds, reversed, the characters read
  since the last cut.  An empty separator cuts between all characters.
\<close>

function split_scan :: "string \<Rightarrow> string \<Rightarrow> string \<Rightarrow> string list" where
  "split_scan sep cur [] = [rev cur]"
| "split_scan sep cur (c # cs) =
     (if sep \<noteq> [] \<and> take (length sep) (c # cs) = sep
      then rev cur # split_scan sep [] (drop (length sep) (c # cs))
      else split_scan sep (c # cur) cs)"
  by pat_completeness auto
termination
  by (relation "measure (\<lambda>(sep, cur, s). length s)") auto

definition js_split :: "string \<Rightarrow> string \<Rightarrow> string list" where
  "js_split sep s = (if sep = [] then map (\<lambda>c. [c]) s else split_scan sep [] s)"

text \<open>Reading an array at an index: \<open>None\<close> is \<^verbatim>\<open>undefined\<close>.\<close>

definition js_index :: "'a list \<Rightarrow> int \<Rightarrow> 'a option" where
  "js_index xs i = (if 0 \<le> i \<and> i < int (length xs) then Some (xs ! nat i) else None)"

text \<open>\<^verbatim>\<open>Array.prototype.join\<close>: an undefined element is written as the empty string.\<close>

fun intercalate :: "string \<Rightarrow> string list \<Rightarrow> string" where
  "intercalate sep [] = []"
| "intercalate sep [x] = x"
| "intercalate sep (x # y # ys) = x @ sep @ intercalate sep (y # ys)"

definition js_join :: "string \<Rightarrow> string option list \<Rightarrow> string" where
  "js_join sep xs = intercalate sep (map (\<lambda>x. case x of None \<Rightarrow> [] | Some s \<Rightarrow> s) xs)"

section \<open>JestToTestAdapterMapper.mapTestIdsToTestFilter\<close>

text \<open>
  \<^verbatim>\<open>ITestFilter\<close> has a file-name pattern and, for a selection of tests, a
  test-name pattern.  The constant \<^verbatim>\<open>TEST_ID_SEPARATOR\<close> comes from
  \<^verbatim>\<open>../constants\<close>, which is not among the sources: it is the parameter
  \<open>sep\<close>.  Reading a property of \<^verbatim>\<open>undefined\<close> throws a \<^verbatim>\<open>TypeError\<close>;
  the other errors are those of the file system, of the parser and of
  \<^verbatim>\<open>new RegExp\<close>, met in the test loader.
\<close>

record ITestFilter =
  testFileNamePattern :: string
  testNamePattern :: "string option"

datatype js_error = TypeError | FsError string | ParseError string | SyntaxError string

definition mapTestIdsToTestFilter :: "string \<Rightarrow> string list \<Rightarrow> js_error + ITestFilter option" where
  "mapTestIdsToTestFilter sep tests =
     (if (case tests of [] \<Rightarrow> False | t0 # _ \<Rightarrow> t0 \<noteq> [] \<and> t0 = ''root'') then Inr None
      else case tests of
        [] \<Rightarrow> Inl TypeError
      | t0 # _ \<Rightarrow>
          if js_includes t0 sep
          then Inr (Some \<lparr>
            testFileNamePattern =
              ''('' @ js_join ''|'' (map (\<lambda>t. js_index (js_split sep t) 0) tests) @ '')'',
            testNamePattern =
              Some (''('' @ js_join ''|'' (map (\<lambda>t. js_index (js_split sep t) 1) tests) @ '')'') \<rparr>)
          else Inr (Some \<lparr>
            testFileNamePattern = ''('' @ js_join ''|'' (map Some tests) @ '')'',
            testNamePattern = None \<rparr>))"

section \<open>The identifier builder\<close>

text \<open>
  The mapper object holds \<^verbatim>\<open>workDir\<close>.  Two imports of the module are not
  among the sources and are fields of the same record: the constant
  \<^verbatim>\<open>TEST_ID_SEPARATOR\<close> (\<^verbatim>\<open>../constants\<close>) and the function
  \<^verbatim>\<open>escapeRegExp\<close> (\<^verbatim>\<open>./escapeRegExp\<close>), of which nothing is assumed where
  it escapes a test name.  The fourth field is of the language, not of the
  repository: the case-insensitive flag of a regular expression compares two
  characters after \<^verbatim>\<open>Canonicalize\<close>, the case folding of the engine, which
  also folds letters outside ASCII; nothing is assumed of it.
\<close>

record JestToTestAdapterMapper =
  workDir :: string
  TEST_ID_SEPARATOR :: string
  escapeRegExp :: "string \<Rightarrow> string"
  canonicalize :: "char \<Rightarrow> char"

text \<open>The pattern \<open>w\<close> matches at the start of \<open>s\<close>, character by character
  after the folding.\<close>

definition ci_match :: "(char \<Rightarrow> char) \<Rightarrow> string \<Rightarrow> string \<Rightarrow> bool" where
  "ci_match canon w s = (map canon (take (length w) s) = map canon w)"

text \<open>
  Modelled from the spec: \<^verbatim>\<open>escapeRegExp\<close> is not among the sources; the
  spec has the working directory "escaped before being used to build the
  stripping pattern" and matched case-insensitively, so
  \<^verbatim>\<open>new RegExp(escapeRegExp(workDir), "ig")\<close> matches the occurrences of
  \<^verbatim>\<open>workDir\<close> as a literal, ignoring case.  \<open>replace_all_ci canon w s\<close> is
  \<^verbatim>\<open>s.replace(thatRegExp, "")\<close>: the global flag removes every occurrence,
  scanning from the left and resuming after each match; the empty pattern
  matches the empty string everywhere and removes nothing.
\<close>

function replace_all_ci :: "(char \<Rightarrow> char) \<Rightarrow> string \<Rightarrow> string \<Rightarrow> string" where
  "replace_all_ci canon w [] = []"
| "replace_all_ci canon w (c # cs) =
     (if w \<noteq> [] \<and> ci_match canon w (c # cs)
      then replace_all_ci canon w (drop (length w) (c # cs))
      else c # replace_all_ci canon w cs)"
  by pat_completeness auto
termination
  by (relation "measure (\<lambda>(canon, w, s). length s)") auto

text \<open>\<^verbatim>\<open>.replace(/\\/g, "/")\<close>: every backslash becomes a forward slash.\<close>

definition slashes :: "string \<Rightarrow> string" where
  "slashes s = map (\<lambda>c. if c = CHR 0x5C then CHR ''/'' else c) s"

text \<open>The local \<^verbatim>\<open>pathWithoutWorkDir\<close> of \<^verbatim>\<open>getTestId\<close> and of
  \<^verbatim>\<open>transformFileResultIntoTree\<close>.\<close>

definition pathWithoutWorkDir :: "JestToTestAdapterMapper \<Rightarrow> string \<Rightarrow> string" where
  "pathWithoutWorkDir this fileName =
     slashes (replace_all_ci (canonicalize this) (workDir this) fileName)"

definition getTestId :: "JestToTestAdapterMapper \<Rightarrow> string \<Rightarrow> string \<Rightarrow> string" where
  "getTestId this fileName testName =
     pathWithoutWorkDir this fileName @ TEST_ID_SEPARATOR this @ ''^'' @
     escapeRegExp this testName @ ''$''"

section \<open>The path-to-tree folder\<close>

text \<open>
  \<^verbatim>\<open>createDirectoryStructure\<close>: \<^verbatim>\<open>thePath[currentPathIndex]\<close> is undefined
  outside the array, also at \<open>-1\<close>, where the recursion ends.  The slice
  \<^verbatim>\<open>thePath.slice(0, currentPathIndex + 1)\<close> is taken at an index inside the
  array.
\<close>

function createDirectoryStructure :: "node \<Rightarrow> string list \<Rightarrow> int \<Rightarrow> node" where
  "createDirectoryStructure currentLevel thePath currentPathIndex =
     (let idx = (if js_index thePath currentPathIndex = Some []
                 then currentPathIndex - 1 else currentPathIndex)
      in case js_index thePath idx of
           None \<Rightarrow> currentLevel
         | Some currentPathElement \<Rightarrow>
             createDirectoryStructure
               (TestSuiteInfo (intercalate ''/'' (take (nat (idx + 1)) thePath))
                  currentPathElement None None [currentLevel])
               thePath (idx - 1))"
  by pat_completeness auto
termination
  by (relation "measure (\<lambda>(c, p, i). nat (i + 1))")
     (auto simp: js_index_def split: if_splits)

declare createDirectoryStructure.simps [simp del]

text \<open>\<^verbatim>\<open>path[path.length - 1]\<close> is read with \<open>last\<close>: a split never returns the
  empty array for a non-empty separator (\<open>js_split_not_Nil\<close> below).\<close>

definition transformFileResultIntoTree ::
  "JestToTestAdapterMapper \<Rightarrow> string \<Rightarrow> node list \<Rightarrow> node" where
  "transformFileResultIntoTree this resultFileName fileTestCases =
     (let path = js_split ''/'' (pathWithoutWorkDir this resultFileName);
          lastChild = TestSuiteInfo (pathWithoutWorkDir this resultFileName) (last path)
                        (Some resultFileName) None fileTestCases
      in createDirectoryStructure lastChild path (int (length path) - 2))"

section \<open>The status resolver\<close>

text \<open>The records of \<^verbatim>\<open>jest-editor-support\<close> that the mapper reads, with the
  fields it reads.  A reconciler is its method \<^verbatim>\<open>assertionsForTestFile\<close>, which
  returns an array or null.\<close>

datatype TestReconcilationState = Unknown | KnownSuccess | KnownFail | KnownSkip

record TestAssertionStatus =
  status_title :: string
  status_status :: TestReconcilationState
  status_terseMessage :: "string option"
  status_line :: "int option"

record JestAssertionResults =
  assertion_title :: string
  assertion_fullName :: string
  assertion_ancestorTitles :: "string list option"

record JestFileResults =
  result_name :: string
  assertionResults :: "JestAssertionResults list"

type_synonym TestReconciler = "string \<Rightarrow> TestAssertionStatus list option"

text \<open>\<^verbatim>\<open>x || []\<close> for an array or null.\<close>

definition or_empty :: "'a list option \<Rightarrow> 'a list" where
  "or_empty x = (case x of None \<Rightarrow> [] | Some xs \<Rightarrow> xs)"

definition getAssertionStatus ::
  "JestAssertionResults \<Rightarrow> string \<Rightarrow> TestReconciler option \<Rightarrow> TestAssertionStatus option" where
  "getAssertionStatus result file reconciler =
     (case reconciler of
        Some assertionsForTestFile \<Rightarrow>
          find (\<lambda>x. status_title x = assertion_fullName result)
            (or_empty (assertionsForTestFile file))
      | None \<Rightarrow> None)"

definition mapJestAssertionToTestInfo ::
  "JestToTestAdapterMapper \<Rightarrow> JestAssertionResults \<Rightarrow> JestFileResults \<Rightarrow>
   TestReconciler option \<Rightarrow> node" where
  "mapJestAssertionToTestInfo this assertionResult fileResult reconciler =
     (let assertionStatus = getAssertionStatus assertionResult (result_name fileResult) reconciler;
          line = (case assertionStatus of None \<Rightarrow> None | Some st \<Rightarrow> status_line st);
          skipped = (case assertionStatus of None \<Rightarrow> False
                     | Some st \<Rightarrow> status_status st = KnownSkip)
      in TestInfo (getTestId this (result_name fileResult) (assertion_fullName assertionResult))
           (assertion_title assertionResult) (Some (result_name fileResult)) line (Some skipped))"

section \<open>JestToTestAdapterMapper.mapJestParseToTestSuiteInfo\<close>

text \<open>An it-block of a parse result: its name (absent or empty is falsy), its
  file and the line of its start.\<close>

record ItBlock =
  it_name :: "string option"
  it_file :: string
  it_start_line :: int

record IParseResults =
  itBlocks :: "ItBlock list"

text \<open>The callback of \<^verbatim>\<open>testFile.itBlocks.map\<close>.\<close>

definition itBlockTestInfo :: "JestToTestAdapterMapper \<Rightarrow> ItBlock \<Rightarrow> node" where
  "itBlockTestInfo this itBlock =
     (let fileName = it_file itBlock;
          testName = (case it_name itBlock of
                        None \<Rightarrow> ''test has no name''
                      | Some n \<Rightarrow> if n \<noteq> [] then n else ''test has no name'')
      in TestInfo (getTestId this fileName testName) testName (Some fileName)
           (Some (it_start_line itBlock)) (Some False))"

text \<open>The callback of \<^verbatim>\<open>loadedTests.map\<close>: \<^verbatim>\<open>fileName\<close> is null before the
  first it-block and the file of the last it-block after the loop; null and
  the empty string are falsy.\<close>

definition parseResultSuite :: "JestToTestAdapterMapper \<Rightarrow> IParseResults \<Rightarrow> node option" where
  "parseResultSuite this testFile =
     (let testCases = map (itBlockTestInfo this) (itBlocks testFile);
          fileName = (case itBlocks testFile of [] \<Rightarrow> None | bs \<Rightarrow> Some (it_file (last bs)))
      in case fileName of
           None \<Rightarrow> None
         | Some fn \<Rightarrow> if fn \<noteq> [] then Some (transformFileResultIntoTree this fn testCases)
                      else None)"

definition mapJestParseToTestSuiteInfo :: "JestToTestAdapterMapper \<Rightarrow> IParseResults list \<Rightarrow> node" where
  "mapJestParseToTestSuiteInfo this loadedTests =
     (let testSuiteInfos = List.map_filter (parseResultSuite this) loadedTests
      in TestSuiteInfo ''root'' ''Jest'' None None (merge [] testSuiteInfos))"

section \<open>TestLoader: the declaration side\<close>

text \<open>
  A parsed declaration node: an it-block, a describe-block, or a node of
  another type (expect, root).  A name is a string, as \<^verbatim>\<open>jest-editor-support\<close>
  declares it; absent \<^verbatim>\<open>children\<close> are read as \<^verbatim>\<open>[]\<close> by the code and are
  \<open>[]\<close> here.
\<close>

datatype ParsedNode =
    It (parsed_name: string) (parsed_line: int)
  | Describe (parsed_name: string) (parsed_line: int) (parsed_children: "ParsedNode list")
  | OtherNode

text \<open>
  What the loader calls outside the repository: \<^verbatim>\<open>fs.readdir\<close> and
  \<^verbatim>\<open>fs.stat\<close> (an error, or the names, or whether the path is a directory),
  \<^verbatim>\<open>parse\<close> of \<^verbatim>\<open>jest-editor-support\<close> (it throws, or gives the children of
  the root), \<^verbatim>\<open>path.join\<close> and \<^verbatim>\<open>path.basename\<close>, \<^verbatim>\<open>new RegExp\<close> (\<open>None\<close>
  when it throws a SyntaxError, else the \<^verbatim>\<open>test\<close> of the expression),
  \<^verbatim>\<open>micromatch.any\<close> and the constructor of \<^verbatim>\<open>Settings\<close>.
\<close>

record JestSettings =
  testRegex :: "string option"
  testMatch :: "string list"

record ProjectWorkspace =
  rootPath :: string
  pathToConfig :: string

record world =
  fs_readdir :: "string \<Rightarrow> js_error + string list"
  fs_stat_isDirectory :: "string \<Rightarrow> js_error + bool"
  parse :: "string \<Rightarrow> js_error + ParsedNode list"
  path_join :: "string list \<Rightarrow> string"
  path_basename :: "string \<Rightarrow> string"
  new_RegExp :: "string \<Rightarrow> (string \<Rightarrow> bool) option"
  mm_any :: "string \<Rightarrow> string list \<Rightarrow> bool"
  new_Settings :: "ProjectWorkspace \<Rightarrow> JestSettings"

type_synonym Matcher = "string \<Rightarrow> bool"

definition IGNORE_GLOBS :: "string list" where
  "IGNORE_GLOBS = [''node_modules'']"

text \<open>\<^verbatim>\<open>micromatch.not(files, IGNORE_GLOBS)\<close>: the globs of the list have no
  wildcard and match a name that is equal to them.\<close>

definition mm_not :: "string list \<Rightarrow> string list \<Rightarrow> string list" where
  "mm_not files globs = filter (\<lambda>f. f \<notin> set globs) files"

text \<open>\<^verbatim>\<open>.filter(Boolean)\<close> on an array of objects and nulls.\<close>

definition filter_Boolean :: "'a option list \<Rightarrow> 'a list" where
  "filter_Boolean xs = map the (filter (\<lambda>x. x \<noteq> None) xs)"

definition checkIsDirectory :: "world \<Rightarrow> string \<Rightarrow> js_error + bool" where
  "checkIsDirectory w directory = fs_stat_isDirectory w directory"

definition createMatcher :: "world \<Rightarrow> JestSettings \<Rightarrow> js_error + Matcher" where
  "createMatcher w settings =
     (case testRegex settings of
        None \<Rightarrow> Inr (\<lambda>v. mm_any w v (testMatch settings))
      | Some r \<Rightarrow>
          if r \<noteq> []
          then (case new_RegExp w r of None \<Rightarrow> Inl (SyntaxError r) | Some t \<Rightarrow> Inr t)
          else Inr (\<lambda>v. mm_any w v (testMatch settings)))"

definition getDirectoryContents :: "world \<Rightarrow> string \<Rightarrow> js_error + string list" where
  "getDirectoryContents w directory =
     (case fs_readdir w directory of
        Inl err \<Rightarrow> Inl err
      | Inr files \<Rightarrow> Inr (map (\<lambda>f. path_join w [directory, f]) (mm_not files IGNORE_GLOBS)))"

fun exploreNode :: "world \<Rightarrow> ParsedNode \<Rightarrow> string \<Rightarrow> string \<Rightarrow> node option" where
  "exploreNode w (It name line) file prefix =
     Some (TestInfo (path_join w [file, prefix, name]) name (Some file) (Some line) None)"
| "exploreNode w (Describe name line children) file prefix =
     Some (TestSuiteInfo (path_join w [file, prefix, name]) name (Some file) (Some line)
        (filter_Boolean
           (map (\<lambda>x. exploreNode w x file (path_join w [file, prefix, name])) children)))"
| "exploreNode w OtherNode file prefix = None"

definition exploreFile :: "world \<Rightarrow> string \<Rightarrow> js_error + node" where
  "exploreFile w file =
     (case parse w file of
        Inl err \<Rightarrow> Inl err
      | Inr rootChildren \<Rightarrow>
          Inr (TestSuiteInfo file (path_basename w file) (Some file) None
                 (filter_Boolean (map (\<lambda>x. exploreNode w x file file) rootChildren))))"

text \<open>
  A promise that settles is \<open>Some\<close> of a rejection (\<open>Inl\<close>) or of a value
  (\<open>Inr\<close>); \<open>None\<close> is a promise not settled.  \<^verbatim>\<open>Promise.all\<close> rejects as soon as
  one promise rejects, also while others are pending; which rejection it
  passes on when several promises reject depends on their timing, and is the
  leftmost one here.
\<close>

fun first_rejection :: "('e + 'a) option list \<Rightarrow> 'e option" where
  "first_rejection [] = None"
| "first_rejection (Some (Inl e) # ps) = Some e"
| "first_rejection (p # ps) = first_rejection ps"

fun all_values :: "('e + 'a) option list \<Rightarrow> 'a list option" where
  "all_values [] = Some []"
| "all_values (Some (Inr v) # ps) = map_option ((#) v) (all_values ps)"
| "all_values (p # ps) = None"

definition Promise_all :: "('e + 'a) option list \<Rightarrow> ('e + 'a list) option" where
  "Promise_all ps =
     (case first_rejection ps of
        Some e \<Rightarrow> Some (Inl e)
      | None \<Rightarrow> map_option Inr (all_values ps))"

text \<open>The \<^verbatim>\<open>children.length > 0\<close> of a suite.\<close>

definition has_children :: "node \<Rightarrow> bool" where
  "has_children x = (case children_of x of None \<Rightarrow> False | Some cs \<Rightarrow> cs \<noteq> [])"

text \<open>
  \<^verbatim>\<open>exploreDirectory\<close> and \<^verbatim>\<open>evalueFilePath\<close> call each other along the
  directories of the file system, which need not be finite in depth: the
  first argument bounds the depth of the directories entered, and \<open>None\<close> is
  an exploration that has not settled within that depth.
\<close>

fun exploreDirectory :: "nat \<Rightarrow> world \<Rightarrow> string \<Rightarrow> Matcher \<Rightarrow> (js_error + node) option"
  and evalueFilePath :: "nat \<Rightarrow> world \<Rightarrow> string \<Rightarrow> Matcher \<Rightarrow> (js_error + node option) option" where
  "exploreDirectory 0 w directory matcher = None"
| "exploreDirectory (Suc n) w directory matcher =
     (case getDirectoryContents w directory of
        Inl err \<Rightarrow> Some (Inl err)
      | Inr contents \<Rightarrow>
          (case Promise_all (map (\<lambda>x. evalueFilePath n w x matcher) contents) of
             None \<Rightarrow> None
           | Some (Inl err) \<Rightarrow> Some (Inl err)
           | Some (Inr children) \<Rightarrow>
               Some (Inr (TestSuiteInfo directory (path_basename w directory) (Some directory) None
                            (filter has_children (filter_Boolean children))))))"
| "evalueFilePath n w filePath matcher =
     (case checkIsDirectory w filePath of
        Inl err \<Rightarrow> Some (Inl err)
      | Inr isDirectory \<Rightarrow>
          if isDirectory
          then (case exploreDirectory n w filePath matcher of
                  None \<Rightarrow> None
                | Some (Inl err) \<Rightarrow> Some (Inl err)
                | Some (Inr testSuite) \<Rightarrow>
                    Some (Inr (if has_children testSuite then Some testSuite else None)))
          else if matcher filePath
          then (case exploreFile w filePath of
                  Inl err \<Rightarrow> Some (Inl err)
                | Inr suite \<Rightarrow> Some (Inr (Some suite)))
          else Some (Inr None))"

declare evalueFilePath.simps [simp del]

text \<open>The events fired on the emitter and the lines written to the log, in
  order, and how the promise of \<^verbatim>\<open>loadTests\<close> settles.\<close>

datatype load_event = TestLoadStartedEvent | TestLoadFinishedEvent node

record load_run =
  emitted :: "load_event list"
  logged :: "string list"
  outcome :: "js_error + unit"

definition loadTests :: "nat \<Rightarrow> world \<Rightarrow> ProjectWorkspace \<Rightarrow> load_run option" where
  "loadTests n w projectWorkspace =
     (let log1 = [''Loading Jest settings from '' @ pathToConfig projectWorkspace,
                  ''Jest settings loaded'', ''Loading Jest tests''];
          settings = new_Settings w projectWorkspace
      in case createMatcher w settings of
           Inl err \<Rightarrow>
             Some \<lparr>emitted = [TestLoadStartedEvent], logged = log1, outcome = Inl err\<rparr>
         | Inr matcher \<Rightarrow>
             (case exploreDirectory n w (rootPath projectWorkspace) matcher of
                None \<Rightarrow> None
              | Some (Inl err) \<Rightarrow>
                  Some \<lparr>emitted = [TestLoadStartedEvent], logged = log1, outcome = Inl err\<rparr>
              | Some (Inr testSuite) \<Rightarrow>
                  Some \<lparr>emitted =
                          [TestLoadStartedEvent,
                           TestLoadFinishedEvent
                             (TestSuiteInfo ''root'' ''Jest'' None None
                                (case children_of testSuite of None \<Rightarrow> [] | Some cs \<Rightarrow> cs))],
                        logged = log1 @ [''Test load complete''],
                        outcome = Inr ()\<rparr>))"

section \<open>Concrete collaborators\<close>

text \<open>The POSIX \<^verbatim>\<open>path.join\<close> and \<^verbatim>\<open>path.basename\<close> of Node.js, for the
  concrete worlds of the examples: empty and \<^verbatim>\<open>.\<close> segments are dropped, a
  \<^verbatim>\<open>..\<close> segment removes the segment before it.\<close>

fun normalize_segments :: "bool \<Rightarrow> string list \<Rightarrow> string list \<Rightarrow> string list" where
  "normalize_segments isAbsolute acc [] = rev acc"
| "normalize_segments isAbsolute acc (seg # segs) =
     (if seg = [] \<or> seg = ''.'' then normalize_segments isAbsolute acc segs
      else if seg = ''..''
      then (case acc of
              [] \<Rightarrow> normalize_segments isAbsolute (if isAbsolute then [] else [''..'']) segs
            | prev # below \<Rightarrow>
                normalize_segments isAbsolute (if prev = ''..'' then ''..'' # acc else below) segs)
      else normalize_segments isAbsolute (seg # acc) segs)"

definition posix_normalize :: "string \<Rightarrow> string" where
  "posix_normalize p =
     (if p = [] then ''.''
      else let isAbsolute = (hd p = CHR ''/'');
               trailing = (last p = CHR ''/'');
               body = intercalate ''/'' (normalize_segments isAbsolute [] (js_split ''/'' p));
               body1 = (if body = [] \<and> \<not> isAbsolute then ''.'' else body);
               body2 = (if body1 \<noteq> [] \<and> trailing then body1 @ ''/'' else body1)
           in if isAbsolute then ''/'' @ body2 else body2)"

definition posix_join :: "string list \<Rightarrow> string" where
  "posix_join args =
     (let joined = intercalate ''/'' (filter (\<lambda>a. a \<noteq> []) args)
      in if joined = [] then ''.'' else posix_normalize joined)"

definition posix_basename :: "string \<Rightarrow> string" where
  "posix_basename p =
     (case filter (\<lambda>seg. seg \<noteq> []) (js_split ''/'' p) of [] \<Rightarrow> [] | segs \<Rightarrow> last segs)"

text \<open>
  A world with the directory \<^verbatim>\<open>/r\<close> that holds \<^verbatim>\<open>node_modules\<close> and the files
  \<^verbatim>\<open>a.test.js\<close> and \<^verbatim>\<open>b.test.js\<close>, each parsed to one it-block named
  \<^verbatim>\<open>works\<close> at line 1; the settings have no \<^verbatim>\<open>testRegex\<close> and the glob
  \<^verbatim>\<open>**/a.test.js\<close>, which \<^verbatim>\<open>/r/b.test.js\<close> does not match.  The same world with
  a directory that cannot be read, and with a file that cannot be parsed.
\<close>

definition example_world :: world where
  "example_world =
     \<lparr>fs_readdir = (\<lambda>d. if d = ''/r'' then Inr [''node_modules'', ''a.test.js'', ''b.test.js'']
                         else Inl (FsError d)),
      fs_stat_isDirectory = (\<lambda>p. Inr (p = ''/r'')),
      parse = (\<lambda>f. Inr [It ''works'' 1]),
      path_join = posix_join,
      path_basename = posix_basename,
      new_RegExp = (\<lambda>r. None),
      mm_any = (\<lambda>v globs. v \<noteq> ''/r/b.test.js''),
      new_Settings = (\<lambda>ws. \<lparr>testRegex = None, testMatch = [''**/a.test.js'']\<rparr>)\<rparr>"

definition unreadable_world :: world where
  "unreadable_world = example_world\<lparr>fs_readdir := (\<lambda>d. Inl (FsError d))\<rparr>"

definition bad_file_world :: world where
  "bad_file_world =
     example_world\<lparr>parse := (\<lambda>f. if f = ''/r/a.test.js'' then Inl (ParseError f)
                                 else Inr [It ''works'' 1])\<rparr>"

text \<open>A matcher that accepts every path.\<close>

definition every_path :: Matcher where
  "every_path v = True"

text \<open>Modelled from the spec: \<^verbatim>\<open>escapeRegExp\<close> is not among the sources; the
  spec calls its result "a regex-literal-escaped version" of the title.  This
  one writes a backslash before each character that has a meaning in a regular
  expression; it is the \<^verbatim>\<open>escapeRegExp\<close> of the concrete mappers of the
  examples.\<close>

definition regex_specials :: string where
  "regex_specials = ''.*+?^${}()|[]'' @ [CHR 0x5C]"

definition escape_literal :: "string \<Rightarrow> string" where
  "escape_literal s =
     concat (map (\<lambda>c. if c \<in> set regex_specials then [CHR 0x5C, c] else [c]) s)"

text \<open>\<^verbatim>\<open>Canonicalize\<close> on ASCII characters, where it maps a lower-case letter
  to its upper-case letter and leaves every other character; the strings of
  the examples are ASCII.\<close>

definition canonicalize_ascii :: "char \<Rightarrow> char" where
  "canonicalize_ascii c =
     (let n = (of_char c :: nat) in if 97 \<le> n \<and> n \<le> 122 then char_of (n - 32) else c)"

text \<open>A mapper, an assertion result of a file result, a reconciled status of
  that assertion, reconcilers, and parse results, for the examples.\<close>

definition example_mapper :: JestToTestAdapterMapper where
  "example_mapper =
     \<lparr>workDir = ''/root'', TEST_ID_SEPARATOR = ''#'', escapeRegExp = escape_literal,
      canonicalize = canonicalize_ascii\<rparr>"

definition example_assertion :: JestAssertionResults where
  "example_assertion =
     \<lparr>assertion_title = ''adds'', assertion_fullName = ''Math adds'',
      assertion_ancestorTitles = Some [''Math'']\<rparr>"

definition example_file_result :: JestFileResults where
  "example_file_result =
     \<lparr>result_name = ''/root/a.test.ts'', assertionResults = [example_assertion]\<rparr>"

definition example_status :: TestAssertionStatus where
  "example_status =
     \<lparr>status_title = ''Math adds'', status_status = KnownSkip,
      status_terseMessage = None, status_line = Some 12\<rparr>"

definition example_reconciler :: TestReconciler where
  "example_reconciler file =
     (if file = ''/root/a.test.ts'' then Some [example_status] else None)"

definition null_reconciler :: TestReconciler where
  "null_reconciler file = None"

definition unnamed_it_block :: ItBlock where
  "unnamed_it_block = \<lparr>it_name = None, it_file = ''/root/a.test.ts'', it_start_line = 3\<rparr>"

definition example_parse :: IParseResults where
  "example_parse = \<lparr>itBlocks = [unnamed_it_block]\<rparr>"

definition empty_parse :: IParseResults where
  "empty_parse = \<lparr>itBlocks = []\<rparr>"

definition example_workspace :: ProjectWorkspace where
  "example_workspace = \<lparr>rootPath = ''/r'', pathToConfig = ''/r/jest.config.js''\<rparr>"

text \<open>The world with the file that cannot be parsed, seen from the directory
  above \<^verbatim>\<open>/r\<close>.\<close>

definition nested_world :: world where
  "nested_world =
     bad_file_world\<lparr>fs_readdir := (\<lambda>d. if d = ''/'' then Inr [''r'']
                                          else fs_readdir bad_file_world d),
                    fs_stat_isDirectory := (\<lambda>p. Inr (p = ''/'' \<or> p = ''/r''))\<rparr>"

section \<open>Predicates of the statements\<close>

text \<open>A test: a node without children.  The nodes of a tree, the root first;
  its leaves are the tests among them.\<close>

definition is_test :: "node \<Rightarrow> bool" where
  "is_test x = (children_of x = None)"

fun nodes_of :: "node \<Rightarrow> node list" where
  "nodes_of (TestInfo i l f ln sk) = [TestInfo i l f ln sk]"
| "nodes_of (TestSuiteInfo i l f ln cs) = TestSuiteInfo i l f ln cs # concat (map nodes_of cs)"

definition leaves :: "node \<Rightarrow> node set" where
  "leaves x = {t \<in> set (nodes_of x). is_test t}"


text \<open>Identifiers are distinct among the children of every suite of a tree.\<close>

fun unique_sibling_ids :: "node \<Rightarrow> bool" where
  "unique_sibling_ids (TestInfo i l f ln sk) = True"
| "unique_sibling_ids (TestSuiteInfo i l f ln cs) =
     (distinct (map node_id cs) \<and> list_all unique_sibling_ids cs)"

text \<open>In every suite of the tree, a second copy of each test of the suite
  after its children.\<close>

fun duplicate_leaves :: "node \<Rightarrow> node" where
  "duplicate_leaves (TestInfo i l f ln sk) = TestInfo i l f ln sk"
| "duplicate_leaves (TestSuiteInfo i l f ln cs) =
     TestSuiteInfo i l f ln (map duplicate_leaves cs @ filter is_test cs)"

text \<open>A tree of suites only.\<close>

fun no_tests :: "node \<Rightarrow> bool" where
  "no_tests (TestInfo i l f ln sk) = False"
| "no_tests (TestSuiteInfo i l f ln cs) = list_all no_tests cs"

text \<open>The working directory occurs in a string, under the comparison of the
  case-insensitive flag with the given folding.\<close>

fun ci_includes :: "(char \<Rightarrow> char) \<Rightarrow> string \<Rightarrow> string \<Rightarrow> bool" where
  "ci_includes canon [] w = (w = [])"
| "ci_includes canon (c # cs) w = (ci_match canon w (c # cs) \<or> ci_includes canon cs w)"

text \<open>In the identifier made of a file-path part, the separator and a
  test-name part, the separator occurs once: no occurrence starts inside the
  file-path part, and none lies inside the test-name part.\<close>

definition separated_once :: "string \<Rightarrow> string \<times> string \<Rightarrow> bool" where
  "separated_once sep p =
     (\<not> js_includes (fst p @ butlast sep) sep \<and> \<not> js_includes (snd p) sep)"

section \<open>Properties of the tree merger\<close>

lemma find_update_first_other:
  "(\<And>y. Q y \<Longrightarrow> \<not> P y \<and> \<not> P (g y)) \<Longrightarrow> find P (update_first Q g xs) = find P xs"
  by (induction xs) auto

lemma filter_update_first_other:
  "(\<And>y. Q y \<Longrightarrow> \<not> P y \<and> \<not> P (g y)) \<Longrightarrow> filter P (update_first Q g xs) = filter P xs"
  by (induction xs) auto

lemma node_id_with_children [simp]: "node_id (with_children cs x) = node_id x"
  by (cases x) auto

lemma find_append_Some: "find P xs = Some t \<Longrightarrow> find P (xs @ ys) = Some t"
  by (induction xs) auto

lemma mergeEntry_leaf:
  assumes "find (\<lambda>r. node_id r = k) dest = Some t" "children_of t = None"
  shows "find (\<lambda>r. node_id r = k) (mergeEntry dest x) = Some t \<and>
         filter (\<lambda>r. node_id r = k) (mergeEntry dest x) =
           filter (\<lambda>r. node_id r = k) dest @ (if node_id x = k then [x] else [])"
proof (cases "node_id x = k")
  case True
  with assms show ?thesis by (simp add: find_append_Some)
next
  case False
  have f: "find (\<lambda>r. node_id r = k)
             (update_first (\<lambda>r. node_id r = node_id x) (with_children cs) dest)
           = find (\<lambda>r. node_id r = k) dest" for cs
    by (rule find_update_first_other) (use False in auto)
  have g: "filter (\<lambda>r. node_id r = k)
             (update_first (\<lambda>r. node_id r = node_id x) (with_children cs) dest)
           = filter (\<lambda>r. node_id r = k) dest" for cs
    by (rule filter_update_first_other) (use False in auto)
  from False assms show ?thesis
    by (simp add: find_append_Some f g split: option.splits)
qed

text \<open>
  C1, as the code has it.  When the first destination entry with identifier
  \<open>k\<close> is a test (it has no children), that entry is still the first entry with
  identifier \<open>k\<close> after the merge, the destination's entries with identifier \<open>k\<close>
  are unchanged and in their order, and every source entry with identifier \<open>k\<close>
  has been appended after them: none is dropped.
\<close>

theorem merge_leaf_kept_and_source_appended:
  assumes "find (\<lambda>r. node_id r = k) dest = Some t" and "children_of t = None"
  shows "find (\<lambda>r. node_id r = k) (merge dest src) = Some t \<and>
         filter (\<lambda>r. node_id r = k) (merge dest src) =
           filter (\<lambda>r. node_id r = k) dest @ filter (\<lambda>r. node_id r = k) src"
  using assms
proof (induction src arbitrary: dest)
  case Nil
  then show ?case by simp
next
  case (Cons x src)
  from mergeEntry_leaf[OF Cons.prems, of x]
  have a: "find (\<lambda>r. node_id r = k) (mergeEntry dest x) = Some t"
    and b: "filter (\<lambda>r. node_id r = k) (mergeEntry dest x) =
           filter (\<lambda>r. node_id r = k) dest @ (if node_id x = k then [x] else [])"
    by auto
  from Cons.IH[OF a Cons.prems(2)] b show ?case by simp
qed

theorem merge_leaf_kept_and_source_appended_witness:
  "find (\<lambda>r. node_id r = ''a.test.ts#^x$'')
     [TestInfo ''a.test.ts#^x$'' ''x'' (Some ''a.test.ts'') (Some 1) (Some False)]
     = Some (TestInfo ''a.test.ts#^x$'' ''x'' (Some ''a.test.ts'') (Some 1) (Some False))
   \<and> children_of (TestInfo ''a.test.ts#^x$'' ''x'' (Some ''a.test.ts'') (Some 1) (Some False)) = None
   \<and> find (\<lambda>r. node_id r = ''a.test.ts#^x$'')
       (merge [TestInfo ''a.test.ts#^x$'' ''x'' (Some ''a.test.ts'') (Some 1) (Some False)]
              [TestInfo ''a.test.ts#^x$'' ''x'' (Some ''a.test.ts'') (Some 2) (Some False)])
     = Some (TestInfo ''a.test.ts#^x$'' ''x'' (Some ''a.test.ts'') (Some 1) (Some False))
   \<and> filter (\<lambda>r. node_id r = ''a.test.ts#^x$'')
       (merge [TestInfo ''a.test.ts#^x$'' ''x'' (Some ''a.test.ts'') (Some 1) (Some False)]
              [TestInfo ''a.test.ts#^x$'' ''x'' (Some ''a.test.ts'') (Some 2) (Some False)])
     = [TestInfo ''a.test.ts#^x$'' ''x'' (Some ''a.test.ts'') (Some 1) (Some False),
        TestInfo ''a.test.ts#^x$'' ''x'' (Some ''a.test.ts'') (Some 2) (Some False)]"
proof -
  have h1: "find (\<lambda>r. node_id r = ''a.test.ts#^x$'')
     [TestInfo ''a.test.ts#^x$'' ''x'' (Some ''a.test.ts'') (Some 1) (Some False)]
     = Some (TestInfo ''a.test.ts#^x$'' ''x'' (Some ''a.test.ts'') (Some 1) (Some False))"
    by simp
  have h2: "children_of (TestInfo ''a.test.ts#^x$'' ''x'' (Some ''a.test.ts'') (Some 1) (Some False))
     = None"
    by simp
  show ?thesis
    using h1 h2 merge_leaf_kept_and_source_appended [OF h1 h2,
      of "[TestInfo ''a.test.ts#^x$'' ''x'' (Some ''a.test.ts'') (Some 2) (Some False)]"]
    by simp
qed

text \<open>
  C1 as stated fails: merging a destination that holds the test
  \<^verbatim>\<open>a.test.ts#^x$\<close> (line 1) with a source that holds another test of the same
  identifier (line 2) appends the source's test after the original one.
\<close>

theorem merge_leaf_dropped_counterexample:
  "merge [TestInfo ''a.test.ts#^x$'' ''x'' (Some ''a.test.ts'') (Some 1) (Some False)]
         [TestInfo ''a.test.ts#^x$'' ''x'' (Some ''a.test.ts'') (Some 2) (Some False)]
   = [TestInfo ''a.test.ts#^x$'' ''x'' (Some ''a.test.ts'') (Some 1) (Some False),
      TestInfo ''a.test.ts#^x$'' ''x'' (Some ''a.test.ts'') (Some 2) (Some False)]"
  by simp

lemma node_id_duplicate_leaves [simp]: "node_id (duplicate_leaves x) = node_id x"
  by (cases x) auto

lemma find_first_own:
  "node_id x \<notin> node_id ` set pre \<Longrightarrow>
   find (\<lambda>r. node_id r = node_id x) (pre @ x # post) = Some x"
  by (induction pre) auto

lemma update_first_own:
  "node_id x \<notin> node_id ` set pre \<Longrightarrow>
   update_first (\<lambda>r. node_id r = node_id x) g (pre @ x # post) = pre @ g x # post"
  by (induction pre) auto

lemma mergeEntry_own:
  assumes "node_id x \<notin> node_id ` set pre"
    and "\<And>cs. children_of x = Some cs \<Longrightarrow>
           merge cs cs = map duplicate_leaves cs @ filter is_test cs"
  shows "mergeEntry (pre @ x # post) x =
           pre @ duplicate_leaves x # post @ (if is_test x then [x] else [])"
proof (cases x)
  case (TestInfo i l f ln sk)
  with assms(1) show ?thesis
    using find_first_own[OF assms(1), of post] by (simp add: is_test_def)
next
  case (TestSuiteInfo i l f ln cs)
  with assms(2) have m: "merge cs cs = map duplicate_leaves cs @ filter is_test cs" by simp
  show ?thesis
    using find_first_own[OF assms(1), of post] update_first_own[OF assms(1), of _ post]
    by (simp add: TestSuiteInfo m is_test_def)
qed

lemma merge_self_aux:
  assumes "distinct (map node_id (pre @ rest))"
    and "\<And>x cs. x \<in> set rest \<Longrightarrow> children_of x = Some cs \<Longrightarrow>
           merge cs cs = map duplicate_leaves cs @ filter is_test cs"
  shows "merge (pre @ rest @ app) rest =
           pre @ map duplicate_leaves rest @ app @ filter is_test rest"
  using assms
proof (induction rest arbitrary: pre app)
  case Nil
  then show ?case by simp
next
  case (Cons x rest)
  have nid: "node_id x \<notin> node_id ` set pre" using Cons.prems(1) by auto
  have e: "mergeEntry (pre @ x # rest @ app) x =
            (pre @ [duplicate_leaves x]) @ rest @ (app @ (if is_test x then [x] else []))"
    using mergeEntry_own[OF nid, of "rest @ app"] Cons.prems(2)[of x] by simp
  have d: "distinct (map node_id ((pre @ [duplicate_leaves x]) @ rest))"
    using Cons.prems(1) by auto
  have "merge ((pre @ [duplicate_leaves x]) @ rest @ (app @ (if is_test x then [x] else []))) rest
        = (pre @ [duplicate_leaves x]) @ map duplicate_leaves rest @
          (app @ (if is_test x then [x] else [])) @ filter is_test rest"
    by (rule Cons.IH[OF d]) (use Cons.prems(2) in auto)
  then show ?case using e by simp
qed

lemma merge_children_self:
  "unique_sibling_ids x \<Longrightarrow> children_of x = Some cs \<Longrightarrow>
   merge cs cs = map duplicate_leaves cs @ filter is_test cs"
proof (induction x arbitrary: cs)
  case (TestInfo i l f ln sk)
  then show ?case by simp
next
  case (TestSuiteInfo i l f ln ch)
  then have cs: "cs = ch" and d: "distinct (map node_id ch)"
    and u: "\<And>c. c \<in> set ch \<Longrightarrow> unique_sibling_ids c"
    by (auto simp: list_all_iff)
  have "merge ([] @ ch @ []) ch = [] @ map duplicate_leaves ch @ [] @ filter is_test ch"
    by (rule merge_self_aux) (use d u TestSuiteInfo.IH in auto)
  then show ?case using cs by simp
qed

lemma duplicate_leaves_no_tests: "no_tests x \<Longrightarrow> duplicate_leaves x = x"
proof (induction x)
  case (TestInfo i l f ln sk)
  then show ?case by simp
next
  case (TestSuiteInfo i l f ln cs)
  then have a: "\<And>c. c \<in> set cs \<Longrightarrow> no_tests c" by (auto simp: list_all_iff)
  have "map duplicate_leaves cs = cs" using TestSuiteInfo.IH a by (simp add: map_idI)
  moreover have "\<not> is_test c" if "c \<in> set cs" for c
    using a[OF that] by (cases c) (auto simp: is_test_def)
  then have "filter is_test cs = []" by (simp add: filter_empty_conv)
  ultimately show ?case by simp
qed

lemma no_tests_not_is_test: "no_tests x \<Longrightarrow> \<not> is_test x"
  by (cases x) (auto simp: is_test_def)

text \<open>
  C4, as the code has it.  For a sibling sequence whose identifiers are
  distinct among siblings at every depth, merging the sequence with a copy of
  itself keeps every node in its place and appends, in every sibling list, a
  second copy of each test of that list; the result is the original sequence
  when the trees hold suites only.
\<close>

theorem merge_self_duplicates_exactly_the_leaves:
  assumes "distinct (map node_id xs)" and "list_all unique_sibling_ids xs"
  shows "merge xs xs = map duplicate_leaves xs @ filter is_test xs \<and>
         (list_all no_tests xs \<longrightarrow> merge xs xs = xs)"
proof -
  have "merge ([] @ xs @ []) xs = [] @ map duplicate_leaves xs @ [] @ filter is_test xs"
    by (rule merge_self_aux) (use assms merge_children_self in \<open>auto simp: list_all_iff\<close>)
  then have m: "merge xs xs = map duplicate_leaves xs @ filter is_test xs" by simp
  have "merge xs xs = xs" if "list_all no_tests xs"
  proof -
    from that have "map duplicate_leaves xs = xs"
      by (simp add: list_all_iff duplicate_leaves_no_tests map_idI)
    moreover from that have "filter is_test xs = []"
      by (simp add: list_all_iff filter_empty_conv no_tests_not_is_test)
    ultimately show ?thesis using m by simp
  qed
  with m show ?thesis by simp
qed

theorem merge_self_duplicates_exactly_the_leaves_witness:
  "distinct (map node_id
     [TestSuiteInfo ''/src'' ''src'' None None
        [TestSuiteInfo ''/src/a.test.ts'' ''a.test.ts'' (Some ''/w/src/a.test.ts'') None []]])
   \<and> list_all unique_sibling_ids
     [TestSuiteInfo ''/src'' ''src'' None None
        [TestSuiteInfo ''/src/a.test.ts'' ''a.test.ts'' (Some ''/w/src/a.test.ts'') None []]]
   \<and> list_all no_tests
     [TestSuiteInfo ''/src'' ''src'' None None
        [TestSuiteInfo ''/src/a.test.ts'' ''a.test.ts'' (Some ''/w/src/a.test.ts'') None []]]
   \<and> merge
       [TestSuiteInfo ''/src'' ''src'' None None
          [TestSuiteInfo ''/src/a.test.ts'' ''a.test.ts'' (Some ''/w/src/a.test.ts'') None []]]
       [TestSuiteInfo ''/src'' ''src'' None None
          [TestSuiteInfo ''/src/a.test.ts'' ''a.test.ts'' (Some ''/w/src/a.test.ts'') None []]]
     = [TestSuiteInfo ''/src'' ''src'' None None
          [TestSuiteInfo ''/src/a.test.ts'' ''a.test.ts'' (Some ''/w/src/a.test.ts'') None []]]"
proof -
  have h1: "distinct (map node_id
     [TestSuiteInfo ''/src'' ''src'' None None
        [TestSuiteInfo ''/src/a.test.ts'' ''a.test.ts'' (Some ''/w/src/a.test.ts'') None []]])"
    by simp
  have h2: "list_all unique_sibling_ids
     [TestSuiteInfo ''/src'' ''src'' None None
        [TestSuiteInfo ''/src/a.test.ts'' ''a.test.ts'' (Some ''/w/src/a.test.ts'') None []]]"
    by simp
  have h3: "list_all no_tests
     [TestSuiteInfo ''/src'' ''src'' None None
        [TestSuiteInfo ''/src/a.test.ts'' ''a.test.ts'' (Some ''/w/src/a.test.ts'') None []]]"
    by simp
  show ?thesis
    using h1 h2 h3 merge_self_duplicates_exactly_the_leaves [OF h1 h2]
    by simp
qed

text \<open>
  C4 as stated fails: a file suite that holds one test, merged with a copy of
  itself, holds the test twice.
\<close>

theorem merge_self_counterexample:
  "merge
     [TestSuiteInfo ''/a.test.ts'' ''a.test.ts'' (Some ''/w/a.test.ts'') None
        [TestInfo ''/a.test.ts#^x$'' ''x'' (Some ''/w/a.test.ts'') (Some 3) (Some False)]]
     [TestSuiteInfo ''/a.test.ts'' ''a.test.ts'' (Some ''/w/a.test.ts'') None
        [TestInfo ''/a.test.ts#^x$'' ''x'' (Some ''/w/a.test.ts'') (Some 3) (Some False)]]
   = [TestSuiteInfo ''/a.test.ts'' ''a.test.ts'' (Some ''/w/a.test.ts'') None
        [TestInfo ''/a.test.ts#^x$'' ''x'' (Some ''/w/a.test.ts'') (Some 3) (Some False),
         TestInfo ''/a.test.ts#^x$'' ''x'' (Some ''/w/a.test.ts'') (Some 3) (Some False)]]"
  by simp

section \<open>Properties of the filter translator\<close>

lemma split_scan_no_sep:
  "sep \<noteq> [] \<Longrightarrow> \<not> js_includes s sep \<Longrightarrow> split_scan sep cur s = [rev cur @ s]"
  by (induction s arbitrary: cur) auto

lemma take_sep_inside:
  assumes "sep \<noteq> []"
  shows "take (length sep) (a # f @ sep @ n) = take (length sep) (a # f @ butlast sep)"
proof -
  define b l where "b = butlast sep" and "l = last sep"
  have sep: "sep = b @ [l]" using assms by (simp add: b_def l_def)
  have "take (length (b @ [l])) ((a # f @ b) @ (l # n)) = take (length (b @ [l])) (a # f @ b)"
    by simp
  moreover have "a # f @ (b @ [l]) @ n = (a # f @ b) @ (l # n)" by simp
  ultimately have "take (length (b @ [l])) (a # f @ (b @ [l]) @ n)
                   = take (length (b @ [l])) (a # f @ b)" by simp
  then show ?thesis unfolding b_def[symmetric] sep[symmetric] .
qed

lemma split_scan_first:
  "sep \<noteq> [] \<Longrightarrow> \<not> js_includes (f @ butlast sep) sep \<Longrightarrow>
   split_scan sep cur (f @ sep @ n) = (rev cur @ f) # split_scan sep [] n"
proof (induction f arbitrary: cur)
  case Nil
  then obtain c cs where s: "sep = c # cs" by (cases sep) auto
  have "split_scan sep cur (c # (cs @ n)) =
          rev cur # split_scan sep [] (drop (length sep) (c # (cs @ n)))"
    using s by simp
  then show ?case using s by simp
next
  case (Cons a f)
  have "take (length sep) (a # f @ butlast sep) \<noteq> sep"
    and r: "\<not> js_includes (f @ butlast sep) sep"
    using Cons.prems(2) by auto
  then have "take (length sep) (a # f @ sep @ n) \<noteq> sep"
    using take_sep_inside[OF Cons.prems(1)] by simp
  then have "split_scan sep cur ((a # f) @ sep @ n) = split_scan sep (a # cur) (f @ sep @ n)"
    by simp
  then show ?case using Cons.IH[OF Cons.prems(1) r] by simp
qed

lemma js_split_once:
  assumes "sep \<noteq> []" "separated_once sep (f, n)"
  shows "js_split sep (f @ sep @ n) = [f, n]"
  using assms split_scan_first[of sep f "[]" n] split_scan_no_sep[of sep n "[]"]
  by (simp add: js_split_def separated_once_def)

lemma js_includes_mid: "js_includes (f @ sep @ n) sep"
proof (induction f)
  case Nil
  show ?case by (cases sep; cases n) auto
next
  case (Cons a f)
  then show ?case by simp
qed

lemma js_join_Some [simp]: "js_join s (map (\<lambda>x. Some (g x)) xs) = intercalate s (map g xs)"
  by (simp add: js_join_def comp_def)

text \<open>A selection that is not empty is never answered by an exception.\<close>

lemma mapTestIdsToTestFilter_nonempty_returns:
  "tests \<noteq> [] \<Longrightarrow> \<exists>v. mapTestIdsToTestFilter sep tests = Inr v"
  by (cases tests) (auto simp: mapTestIdsToTestFilter_def)

text \<open>
  C5: the code at the empty selection.  \<^verbatim>\<open>tests[0]\<close> is undefined, the first
  test is guarded against that (\<^verbatim>\<open>tests[0] && ...\<close>) and is false, and
  \<^verbatim>\<open>tests[0].includes\<close> throws a TypeError where the claim wants a value.
\<close>

theorem mapTestIdsToTestFilter_empty_throws:
  "mapTestIdsToTestFilter sep [] = Inl TypeError"
  by (simp add: mapTestIdsToTestFilter_def)

text \<open>
  C6, as the code has it.  \<^verbatim>\<open>mapTestIdsToTestFilter(["root"])\<close> is null.  For a
  non-empty list of identifiers, each a file-path part, the separator and a
  test-name part in which the separator occurs once (and a separator that is
  not empty and not a part of \<^verbatim>\<open>root\<close>), the file-name pattern is the
  alternation of the file-path parts and the test-name pattern is the
  alternation of the test-name parts, both in parentheses.
\<close>

theorem mapTestIdsToTestFilter_patterns:
  assumes "sep \<noteq> []" and "\<not> js_includes ''root'' sep" and "pairs \<noteq> []"
    and "list_all (separated_once sep) pairs"
  shows "mapTestIdsToTestFilter sep [''root''] = Inr None \<and>
         mapTestIdsToTestFilter sep (map (\<lambda>p. fst p @ sep @ snd p) pairs) =
           Inr (Some \<lparr>testFileNamePattern = ''('' @ intercalate ''|'' (map fst pairs) @ '')'',
                      testNamePattern = Some (''('' @ intercalate ''|'' (map snd pairs) @ '')'')\<rparr>)"
proof -
  obtain p ps where pp: "pairs = p # ps" using assms(3) by (cases pairs) auto
  have nr: "fst p @ sep @ snd p \<noteq> ''root''"
    using js_includes_mid[of "fst p" sep "snd p"] assms(2) by auto
  have s0: "map (\<lambda>t. js_index (js_split sep t) 0) (map (\<lambda>p. fst p @ sep @ snd p) pairs)
            = map (\<lambda>p. Some (fst p)) pairs"
    using assms(1,4) by (auto simp: list_all_iff js_split_once js_index_def)
  have s1: "map (\<lambda>t. js_index (js_split sep t) 1) (map (\<lambda>p. fst p @ sep @ snd p) pairs)
            = map (\<lambda>p. Some (snd p)) pairs"
    using assms(1,4) by (auto simp: list_all_iff js_split_once js_index_def)
  have "mapTestIdsToTestFilter sep (map (\<lambda>p. fst p @ sep @ snd p) pairs) =
     Inr (Some \<lparr>testFileNamePattern =
              ''('' @ js_join ''|'' (map (\<lambda>t. js_index (js_split sep t) 0)
                                       (map (\<lambda>p. fst p @ sep @ snd p) pairs)) @ '')'',
            testNamePattern =
              Some (''('' @ js_join ''|'' (map (\<lambda>t. js_index (js_split sep t) 1)
                                       (map (\<lambda>p. fst p @ sep @ snd p) pairs)) @ '')'') \<rparr>)"
    unfolding mapTestIdsToTestFilter_def using nr js_includes_mid[of "fst p" sep "snd p"]
    by (simp add: pp)
  then have "mapTestIdsToTestFilter sep (map (\<lambda>p. fst p @ sep @ snd p) pairs) =
           Inr (Some \<lparr>testFileNamePattern = ''('' @ intercalate ''|'' (map fst pairs) @ '')'',
                      testNamePattern = Some (''('' @ intercalate ''|'' (map snd pairs) @ '')'')\<rparr>)"
    unfolding s0 s1 by simp
  moreover have "mapTestIdsToTestFilter sep [''root''] = Inr None"
    by (simp add: mapTestIdsToTestFilter_def)
  ultimately show ?thesis by simp
qed

theorem mapTestIdsToTestFilter_patterns_witness:
  "''#'' \<noteq> [] \<and> \<not> js_includes ''root'' ''#''
   \<and> [(''/a/b.test.ts'', ''^foo$''), (''/a/b.test.ts'', ''^bar$'')] \<noteq> []
   \<and> list_all (separated_once ''#'') [(''/a/b.test.ts'', ''^foo$''), (''/a/b.test.ts'', ''^bar$'')]
   \<and> mapTestIdsToTestFilter ''#'' [''root''] = Inr None
   \<and> mapTestIdsToTestFilter ''#'' [''/a/b.test.ts#^foo$'', ''/a/b.test.ts#^bar$''] =
       Inr (Some \<lparr>testFileNamePattern = ''(/a/b.test.ts|/a/b.test.ts)'',
                  testNamePattern = Some ''(^foo$|^bar$)''\<rparr>)"
proof -
  have h1: "''#'' \<noteq> []" by simp
  have h2: "\<not> js_includes ''root'' ''#''" by simp
  have h3: "[(''/a/b.test.ts'', ''^foo$''), (''/a/b.test.ts'', ''^bar$'')] \<noteq> []" by simp
  have h4: "list_all (separated_once ''#'')
              [(''/a/b.test.ts'', ''^foo$''), (''/a/b.test.ts'', ''^bar$'')]"
    by (simp add: separated_once_def)
  show ?thesis
    using h1 h2 h3 h4 mapTestIdsToTestFilter_patterns [OF h1 h2 h3 h4]
    by simp
qed

text \<open>
  C6 as stated fails for an identifier that holds the separator twice: with
  the separator \<^verbatim>\<open>#\<close>, the identifier of the test titled \<^verbatim>\<open>fix #12\<close> of
  \<^verbatim>\<open>/a/b.test.ts\<close> gives the test-name pattern \<^verbatim>\<open>(^fix )\<close>, which is not the
  anchored name \<^verbatim>\<open>^fix #12$\<close>.
\<close>

theorem mapTestIdsToTestFilter_patterns_counterexample:
  "mapTestIdsToTestFilter ''#'' [''/a/b.test.ts#^fix #12$''] =
     Inr (Some \<lparr>testFileNamePattern = ''(/a/b.test.ts)'', testNamePattern = Some ''(^fix )''\<rparr>)"
  by (simp add: mapTestIdsToTestFilter_def js_split_def js_index_def js_join_def)

section \<open>Properties of the identifier builder\<close>

lemma replace_all_ci_absent:
  "\<not> ci_includes canon s w \<Longrightarrow> replace_all_ci canon w s = s"
  by (induction s) auto

lemma slashes_idem: "slashes (slashes s) = slashes s"
  by (simp add: slashes_def)

text \<open>
  C9, as the code has it, for every case folding of the regular expression
  engine.  When the working directory does not occur in a path, under the
  comparison of the case-insensitive flag, stripping is a no-op and the step
  only turns the backslashes; and a second application of the step to a
  result in which the working directory does not occur leaves that result
  unchanged.
\<close>

theorem pathWithoutWorkDir_absent_noop:
  "(\<not> ci_includes (canonicalize this) p (workDir this) \<longrightarrow>
      pathWithoutWorkDir this p = slashes p) \<and>
   (\<not> ci_includes (canonicalize this) (pathWithoutWorkDir this f) (workDir this) \<longrightarrow>
      pathWithoutWorkDir this (pathWithoutWorkDir this f) = pathWithoutWorkDir this f)"
  by (simp add: pathWithoutWorkDir_def replace_all_ci_absent slashes_idem)

theorem pathWithoutWorkDir_absent_noop_witness:
  "\<not> ci_includes canonicalize_ascii ''/src/foo/bar.test.ts'' ''/Root''
   \<and> pathWithoutWorkDir
        \<lparr>workDir = ''/Root'', TEST_ID_SEPARATOR = ''#'', escapeRegExp = escape_literal,
      canonicalize = canonicalize_ascii\<rparr>
        ''/root/src/foo/bar.test.ts'' = ''/src/foo/bar.test.ts''
   \<and> pathWithoutWorkDir
        \<lparr>workDir = ''/Root'', TEST_ID_SEPARATOR = ''#'', escapeRegExp = escape_literal,
      canonicalize = canonicalize_ascii\<rparr>
        ''/src/foo/bar.test.ts'' = ''/src/foo/bar.test.ts''"
proof -
  have h1: "\<not> ci_includes canonicalize_ascii ''/src/foo/bar.test.ts'' ''/Root''" by code_simp
  have h2: "pathWithoutWorkDir
        \<lparr>workDir = ''/Root'', TEST_ID_SEPARATOR = ''#'', escapeRegExp = escape_literal,
      canonicalize = canonicalize_ascii\<rparr>
        ''/root/src/foo/bar.test.ts'' = ''/src/foo/bar.test.ts''" by code_simp
  have h3: "slashes ''/src/foo/bar.test.ts'' = ''/src/foo/bar.test.ts''" by code_simp
  show ?thesis
    using h1 h2 h3
      pathWithoutWorkDir_absent_noop [where p = "''/src/foo/bar.test.ts''"
        and this = "\<lparr>workDir = ''/Root'', TEST_ID_SEPARATOR = ''#'',
                     escapeRegExp = escape_literal, canonicalize = canonicalize_ascii\<rparr>"
        and f = "''/root/src/foo/bar.test.ts''"]
    by simp
qed

text \<open>
  C9 as stated fails: with the working directory \<^verbatim>\<open>/ab\<close>, the file
  \<^verbatim>\<open>/ab/a/abb/x.test.ts\<close> is stripped to \<^verbatim>\<open>/ab/x.test.ts\<close> (both occurrences
  of \<^verbatim>\<open>/ab\<close> are removed), and a second application strips that to
  \<^verbatim>\<open>/x.test.ts\<close>.
\<close>

theorem pathWithoutWorkDir_idempotent_counterexample:
  "pathWithoutWorkDir
     \<lparr>workDir = ''/ab'', TEST_ID_SEPARATOR = ''#'', escapeRegExp = escape_literal,
      canonicalize = canonicalize_ascii\<rparr>
     ''/ab/a/abb/x.test.ts'' = ''/ab/x.test.ts''
   \<and> pathWithoutWorkDir
     \<lparr>workDir = ''/ab'', TEST_ID_SEPARATOR = ''#'', escapeRegExp = escape_literal,
      canonicalize = canonicalize_ascii\<rparr>
     ''/ab/x.test.ts'' = ''/x.test.ts''"
  by code_simp

section \<open>Properties of the path-to-tree folder and of identifiers\<close>

lemma nodes_of_self: "x \<in> set (nodes_of x)"
  by (cases x) auto


lemma createDirectoryStructure_keeps:
  "x \<in> set (nodes_of cur) \<Longrightarrow> x \<in> set (nodes_of (createDirectoryStructure cur path idx))"
proof (induction cur path idx rule: createDirectoryStructure.induct)
  case (1 cur path idx)
  define j where "j = (if js_index path idx = Some [] then idx - 1 else idx)"
  show ?case
  proof (cases "js_index path j")
    case None
    then have "createDirectoryStructure cur path idx = cur"
      by (subst createDirectoryStructure.simps) (simp add: j_def)
    with "1.prems" show ?thesis by simp
  next
    case (Some el)
    define new where "new = TestSuiteInfo (intercalate ''/'' (take (nat (j + 1)) path)) el None None [cur]"
    have r: "createDirectoryStructure cur path idx = createDirectoryStructure new path (j - 1)"
      using Some by (subst createDirectoryStructure.simps) (simp add: j_def new_def)
    have "x \<in> set (nodes_of (createDirectoryStructure new path (j - 1)))"
    proof (rule "1.IH"[of j el, folded new_def])
      show "j = (if js_index path idx = Some [] then idx - 1 else idx)" by (simp add: j_def)
      show "js_index path j = Some el" by (rule Some)
      show "x \<in> set (nodes_of new)" using "1.prems" by (simp add: new_def)
    qed
    then show ?thesis using r by simp
  qed
qed

lemma split_scan_not_Nil: "split_scan sep cur s \<noteq> []"
  by (induction sep cur s rule: split_scan.induct) auto

lemma js_split_not_Nil: "sep \<noteq> [] \<Longrightarrow> js_split sep s \<noteq> []"
  by (simp add: js_split_def split_scan_not_Nil)







section \<open>Properties of the status resolver\<close>

text \<open>
  C8.  Without a reconciler, and with a reconciler that has no record whose
  title is the assertion's full name, the test is not skipped and has no
  line; when the first record with that title is \<open>st\<close>, the test is skipped
  exactly when the status of \<open>st\<close> is \<open>KnownSkip\<close>, and its line is the line of
  \<open>st\<close>.
\<close>

theorem mapJestAssertionToTestInfo_skipped_and_line:
  fixes this a fr rc
  defines "T \<equiv> mapJestAssertionToTestInfo this a fr rc"
  shows "(rc = None \<longrightarrow> node_skipped T = Some False \<and> node_line T = None) \<and>
   (rc = Some r \<and>
      (\<forall>x \<in> set (or_empty (r (result_name fr))).
          status_title x \<noteq> assertion_fullName a)
      \<longrightarrow> node_skipped T = Some False \<and> node_line T = None) \<and>
   (rc = Some r \<and>
      find (\<lambda>x. status_title x = assertion_fullName a)
        (or_empty (r (result_name fr))) = Some st
      \<longrightarrow> node_skipped T = Some (status_status st = KnownSkip) \<and> node_line T = status_line st)"
proof -
  have 1: "node_skipped T = Some False \<and> node_line T = None" if "rc = None"
    using that by (simp add: T_def mapJestAssertionToTestInfo_def getAssertionStatus_def Let_def)
  have 2: "node_skipped T = Some False \<and> node_line T = None"
    if a: "rc = Some r \<and>
      (\<forall>x \<in> set (or_empty (r (result_name fr))).
          status_title x \<noteq> assertion_fullName a)"
  proof -
    from a have "find (\<lambda>x. status_title x = assertion_fullName a)
        (or_empty (r (result_name fr))) = None"
      by (simp add: find_None_iff)
    with a show ?thesis
      by (simp add: T_def mapJestAssertionToTestInfo_def getAssertionStatus_def Let_def)
  qed
  have 3: "node_skipped T = Some (status_status st = KnownSkip) \<and> node_line T = status_line st"
    if "rc = Some r \<and>
      find (\<lambda>x. status_title x = assertion_fullName a)
        (or_empty (r (result_name fr))) = Some st"
    using that by (simp add: T_def mapJestAssertionToTestInfo_def getAssertionStatus_def Let_def)
  from 1 2 3 show ?thesis by blast
qed

theorem mapJestAssertionToTestInfo_skipped_and_line_witness:
  "find (\<lambda>x. status_title x = assertion_fullName example_assertion)
     (or_empty (example_reconciler (result_name example_file_result))) = Some example_status
   \<and> node_skipped (mapJestAssertionToTestInfo example_mapper example_assertion
        example_file_result (Some example_reconciler)) = Some True
   \<and> node_line (mapJestAssertionToTestInfo example_mapper example_assertion
        example_file_result (Some example_reconciler)) = Some 12
   \<and> node_skipped (mapJestAssertionToTestInfo example_mapper example_assertion
        example_file_result None) = Some False
   \<and> node_line (mapJestAssertionToTestInfo example_mapper example_assertion
        example_file_result None) = None
   \<and> node_skipped (mapJestAssertionToTestInfo example_mapper example_assertion
        example_file_result (Some null_reconciler)) = Some False"
proof -
  have h1: "find (\<lambda>x. status_title x = assertion_fullName example_assertion)
     (or_empty (example_reconciler (result_name example_file_result))) = Some example_status"
    by (simp add: or_empty_def example_reconciler_def example_file_result_def
        example_status_def example_assertion_def)
  have h2: "\<forall>x \<in> set (or_empty (null_reconciler (result_name example_file_result))).
              status_title x \<noteq> assertion_fullName example_assertion"
    by (simp add: or_empty_def null_reconciler_def)
  have h3: "status_status example_status = KnownSkip" "status_line example_status = Some 12"
    by (simp_all add: example_status_def)
  note t1 = mapJestAssertionToTestInfo_skipped_and_line [of "Some example_reconciler"
      example_mapper example_assertion example_file_result example_reconciler example_status]
  note t2 = mapJestAssertionToTestInfo_skipped_and_line [of None
      example_mapper example_assertion example_file_result]
  note t3 = mapJestAssertionToTestInfo_skipped_and_line [of "Some null_reconciler"
      example_mapper example_assertion example_file_result null_reconciler]
  from t1 h1 h3 have a: "node_skipped (mapJestAssertionToTestInfo example_mapper example_assertion
        example_file_result (Some example_reconciler)) = Some True
      \<and> node_line (mapJestAssertionToTestInfo example_mapper example_assertion
        example_file_result (Some example_reconciler)) = Some 12"
    by simp
  from t2 have b: "node_skipped (mapJestAssertionToTestInfo example_mapper example_assertion
        example_file_result None) = Some False
      \<and> node_line (mapJestAssertionToTestInfo example_mapper example_assertion
        example_file_result None) = None"
    by simp
  from t3 h2 have c: "node_skipped (mapJestAssertionToTestInfo example_mapper example_assertion
        example_file_result (Some null_reconciler)) = Some False"
    by blast
  from h1 a b c show ?thesis by blast
qed

section \<open>Properties of mapJestParseToTestSuiteInfo\<close>

lemma leaves_TestInfo [simp]: "leaves (TestInfo i l f ln sk) = {TestInfo i l f ln sk}"
  by (auto simp: leaves_def is_test_def)

lemma leaves_TestSuiteInfo [simp]: "leaves (TestSuiteInfo i l f ln cs) = (\<Union>c\<in>set cs. leaves c)"
  by (auto simp: leaves_def is_test_def)

lemma leaves_with_children:
  "children_of e = Some old \<Longrightarrow> leaves (with_children cs e) = (\<Union>c\<in>set cs. leaves c)"
  by (cases e) auto

lemma leaves_children_of:
  "children_of e = Some cs \<Longrightarrow> leaves e = (\<Union>c\<in>set cs. leaves c)"
  by (cases e) auto

lemma find_Some_mem: "find P xs = Some e \<Longrightarrow> e \<in> set xs"
  by (induction xs) (auto split: if_splits)

lemma leaves_update_first:
  "find P xs = Some e \<Longrightarrow> leaves e \<subseteq> leaves (g e) \<Longrightarrow>
   (\<Union>x\<in>set (update_first P g xs). leaves x) = (\<Union>x\<in>set xs. leaves x) \<union> leaves (g e)"
  by (induction xs) (auto split: if_splits)

lemma merge_leaves:
  "(\<Union>x\<in>set (merge dest src). leaves x) = (\<Union>x\<in>set dest. leaves x) \<union> (\<Union>x\<in>set src. leaves x)"
  and mergeEntry_leaves:
  "(\<Union>x\<in>set (mergeEntry dest s). leaves x) = (\<Union>x\<in>set dest. leaves x) \<union> leaves s"
proof (induction dest src and dest s rule: merge_mergeEntry.induct)
  case (1 mergeDestination)
  then show ?case by simp
next
  case (2 mergeDestination suiteResult rest)
  then show ?case by auto
next
  case (3 mergeDestination suiteResult)
  show ?case
  proof (cases "find (\<lambda>result. node_id result = node_id suiteResult) mergeDestination")
    case None
    then show ?thesis by auto
  next
    case (Some e)
    show ?thesis
    proof (cases "children_of e")
      case None
      with Some show ?thesis by auto
    next
      case ecs: (Some ecs)
      show ?thesis
      proof (cases "children_of suiteResult")
        case None
        with Some ecs show ?thesis by auto
      next
        case scs: (Some scs)
        have ih: "(\<Union>x\<in>set (merge ecs scs). leaves x) =
                  (\<Union>x\<in>set ecs. leaves x) \<union> (\<Union>x\<in>set scs. leaves x)"
          by (rule "3.IH"[OF Some ecs scs])
        have g: "leaves (with_children (merge ecs scs) e) = leaves e \<union> leaves suiteResult"
          using ih by (simp add: leaves_with_children[OF ecs] leaves_children_of[OF ecs]
              leaves_children_of[OF scs])
        have "(\<Union>x\<in>set (update_first (\<lambda>result. node_id result = node_id suiteResult)
                 (with_children (merge ecs scs)) mergeDestination). leaves x)
              = (\<Union>x\<in>set mergeDestination. leaves x) \<union> leaves (with_children (merge ecs scs) e)"
          by (rule leaves_update_first[OF Some]) (simp add: g)
        moreover have "leaves e \<subseteq> (\<Union>x\<in>set mergeDestination. leaves x)"
          using find_Some_mem[OF Some] by auto
        ultimately show ?thesis using Some ecs scs g by auto
      qed
    qed
  qed
qed

lemma parseResultSuite_no_itBlocks: "itBlocks p = [] \<Longrightarrow> parseResultSuite this p = None"
  by (simp add: parseResultSuite_def)

lemma map_filter_append: "List.map_filter f (xs @ ys) = List.map_filter f xs @ List.map_filter f ys"
  by (simp add: List.map_filter_def)

lemma itBlock_in_suite:
  assumes "b \<in> set (itBlocks q)" "it_file (last (itBlocks q)) \<noteq> []"
  shows "\<exists>t. parseResultSuite this q = Some t \<and> itBlockTestInfo this b \<in> leaves t"
proof -
  obtain b0 bs where bb: "itBlocks q = b0 # bs" using assms(1) by (cases "itBlocks q") auto
  define cases where "cases = map (itBlockTestInfo this) (itBlocks q)"
  define fn where "fn = it_file (last (itBlocks q))"
  have p: "parseResultSuite this q = Some (transformFileResultIntoTree this fn cases)"
    using assms(2) bb by (simp add: parseResultSuite_def cases_def fn_def)
  have "itBlockTestInfo this b \<in> set cases" using assms(1) by (simp add: cases_def)
  then have "itBlockTestInfo this b \<in> set (nodes_of (TestSuiteInfo (pathWithoutWorkDir this fn)
       (last (js_split ''/'' (pathWithoutWorkDir this fn))) (Some fn) None cases))"
    using nodes_of_self by auto
  then have "itBlockTestInfo this b \<in> set (nodes_of (transformFileResultIntoTree this fn cases))"
    unfolding transformFileResultIntoTree_def Let_def by (rule createDirectoryStructure_keeps)
  moreover have "is_test (itBlockTestInfo this b)"
    by (simp add: itBlockTestInfo_def is_test_def Let_def)
  ultimately show ?thesis using p by (simp add: leaves_def)
qed

text \<open>
  C10, as the code has it.  A parse result without it-blocks adds nothing:
  the tree is the tree of the list without that parse result.  An it-block
  whose name is absent or empty is mapped to a test labelled
  \<^verbatim>\<open>test has no name\<close>.  And the test of every it-block of a parse result
  whose last it-block has a file name that is not empty is a node of the
  returned tree.
\<close>

theorem mapJestParseToTestSuiteInfo_empty_and_unnamed:
  "(itBlocks p = [] \<longrightarrow>
      mapJestParseToTestSuiteInfo this (xs @ p # ys) = mapJestParseToTestSuiteInfo this (xs @ ys)) \<and>
   (it_name b = None \<or> it_name b = Some [] \<longrightarrow>
      itBlockTestInfo this b =
        TestInfo (getTestId this (it_file b) ''test has no name'') ''test has no name''
          (Some (it_file b)) (Some (it_start_line b)) (Some False)) \<and>
   (q \<in> set loadedTests \<and> b \<in> set (itBlocks q) \<and> it_file (last (itBlocks q)) \<noteq> [] \<longrightarrow>
      itBlockTestInfo this b \<in> set (nodes_of (mapJestParseToTestSuiteInfo this loadedTests)))"
proof (intro conjI impI)
  assume "itBlocks p = []"
  then show "mapJestParseToTestSuiteInfo this (xs @ p # ys) = mapJestParseToTestSuiteInfo this (xs @ ys)"
    by (simp add: mapJestParseToTestSuiteInfo_def map_filter_append map_filter_simps
        parseResultSuite_no_itBlocks)
next
  assume "it_name b = None \<or> it_name b = Some []"
  then show "itBlockTestInfo this b =
        TestInfo (getTestId this (it_file b) ''test has no name'') ''test has no name''
          (Some (it_file b)) (Some (it_start_line b)) (Some False)"
    by (auto simp: itBlockTestInfo_def Let_def)
next
  assume a: "q \<in> set loadedTests \<and> b \<in> set (itBlocks q) \<and> it_file (last (itBlocks q)) \<noteq> []"
  then obtain t where t: "parseResultSuite this q = Some t" "itBlockTestInfo this b \<in> leaves t"
    using itBlock_in_suite by blast
  have "t \<in> set (List.map_filter (parseResultSuite this) loadedTests)"
    using a t(1) by (force simp: List.map_filter_def)
  then have "itBlockTestInfo this b \<in>
       (\<Union>x\<in>set (merge [] (List.map_filter (parseResultSuite this) loadedTests)). leaves x)"
    using t(2) by (auto simp: merge_leaves)
  then show "itBlockTestInfo this b \<in> set (nodes_of (mapJestParseToTestSuiteInfo this loadedTests))"
    by (auto simp: mapJestParseToTestSuiteInfo_def leaves_def)
qed


theorem mapJestParseToTestSuiteInfo_empty_and_unnamed_witness:
  "itBlocks empty_parse = []
   \<and> mapJestParseToTestSuiteInfo example_mapper ([example_parse] @ empty_parse # []) =
       mapJestParseToTestSuiteInfo example_mapper ([example_parse] @ [])
   \<and> it_name unnamed_it_block = None
   \<and> itBlockTestInfo example_mapper unnamed_it_block =
       TestInfo ''/a.test.ts#^test has no name$'' ''test has no name''
         (Some ''/root/a.test.ts'') (Some 3) (Some False)
   \<and> itBlockTestInfo example_mapper unnamed_it_block \<in>
       set (nodes_of (mapJestParseToTestSuiteInfo example_mapper [example_parse, empty_parse]))"
proof -
  have h1: "itBlocks empty_parse = []" by (simp add: empty_parse_def)
  have d: "it_name unnamed_it_block = None" by (simp add: unnamed_it_block_def)
  then have h2: "it_name unnamed_it_block = None \<or> it_name unnamed_it_block = Some []" by simp
  have h3: "example_parse \<in> set [example_parse, empty_parse] \<and>
            unnamed_it_block \<in> set (itBlocks example_parse) \<and>
            it_file (last (itBlocks example_parse)) \<noteq> []"
    by (simp add: example_parse_def unnamed_it_block_def)
  have h4: "getTestId example_mapper ''/root/a.test.ts'' ''test has no name''
      = ''/a.test.ts#^test has no name$''"
    by code_simp
  have h5: "it_file unnamed_it_block = ''/root/a.test.ts''" "it_start_line unnamed_it_block = 3"
    by (simp_all add: unnamed_it_block_def)
  note t = mapJestParseToTestSuiteInfo_empty_and_unnamed [of empty_parse example_mapper
      "[example_parse]" "[]" unnamed_it_block example_parse "[example_parse, empty_parse]"]
  from t h1 have a: "mapJestParseToTestSuiteInfo example_mapper ([example_parse] @ empty_parse # []) =
       mapJestParseToTestSuiteInfo example_mapper ([example_parse] @ [])" by blast
  from t h2 have "itBlockTestInfo example_mapper unnamed_it_block =
       TestInfo (getTestId example_mapper (it_file unnamed_it_block) ''test has no name'')
         ''test has no name'' (Some (it_file unnamed_it_block))
         (Some (it_start_line unnamed_it_block)) (Some False)" by blast
  then have b: "itBlockTestInfo example_mapper unnamed_it_block =
       TestInfo ''/a.test.ts#^test has no name$'' ''test has no name''
         (Some ''/root/a.test.ts'') (Some 3) (Some False)" by (simp add: h4 h5)
  from t h3 have c: "itBlockTestInfo example_mapper unnamed_it_block \<in>
       set (nodes_of (mapJestParseToTestSuiteInfo example_mapper [example_parse, empty_parse]))"
    by blast
  from h1 a d b c show ?thesis by (intro conjI)
qed

text \<open>
  C10 as stated fails: the parse result whose only it-block has no name and
  the empty file name is left out of the tree (\<^verbatim>\<open>fileName\<close> is falsy after the
  loop), so its it-block gives no test in the returned tree.
\<close>

theorem mapJestParseToTestSuiteInfo_unnamed_counterexample:
  "mapJestParseToTestSuiteInfo example_mapper
     [\<lparr>itBlocks = [\<lparr>it_name = None, it_file = [], it_start_line = 3\<rparr>]\<rparr>]
   = TestSuiteInfo ''root'' ''Jest'' None None []"
  by (simp add: mapJestParseToTestSuiteInfo_def parseResultSuite_def map_filter_simps)

section \<open>Properties of the test loader\<close>

lemma first_rejection_mem:
  "Some (Inl e) \<in> set ps \<Longrightarrow> \<exists>e'. first_rejection ps = Some e'"
proof (induction ps)
  case Nil then show ?case by simp
next
  case (Cons p ps)
  show ?case
  proof (cases p)
    case None with Cons show ?thesis by auto
  next
    case (Some r)
    with Cons show ?thesis by (cases r) auto
  qed
qed

lemma Promise_all_rejects:
  "Some (Inl e) \<in> set ps \<Longrightarrow> \<exists>e'. Promise_all ps = Some (Inl e')"
  using first_rejection_mem[of e ps] by (auto simp: Promise_all_def)

lemma exploreDirectory_child_rejects:
  assumes "getDirectoryContents w directory = Inr contents" "x \<in> set contents"
    "evalueFilePath n w x matcher = Some (Inl e)"
  shows "\<exists>e'. exploreDirectory (Suc n) w directory matcher = Some (Inl e')"
proof -
  have "Some (Inl e) \<in> set (map (\<lambda>x. evalueFilePath n w x matcher) contents)"
    using assms(2,3) by (metis image_eqI set_map)
  from Promise_all_rejects[OF this] obtain e' where
    "Promise_all (map (\<lambda>x. evalueFilePath n w x matcher) contents) = Some (Inl e')" by blast
  then show ?thesis using assms(1) by simp
qed

text \<open>
  C3, as the code has it.  When a directory lists a file that is matched and
  whose parse fails, the exploration of that directory is rejected, whatever
  the other entries give; and when a directory lists a subdirectory whose
  exploration is rejected, its own exploration is rejected: a single parse
  failure rejects the exploration of every directory above the file.
\<close>

theorem parse_failure_rejects_exploration:
  "(fs_readdir w directory = Inr files \<and> f \<in> set (mm_not files IGNORE_GLOBS) \<and>
    fs_stat_isDirectory w (path_join w [directory, f]) = Inr False \<and>
    matcher (path_join w [directory, f]) \<and>
    parse w (path_join w [directory, f]) = Inl err
      \<longrightarrow> (\<exists>e. exploreDirectory (Suc n) w directory matcher = Some (Inl e))) \<and>
   (fs_readdir w directory = Inr files \<and> f \<in> set (mm_not files IGNORE_GLOBS) \<and>
    fs_stat_isDirectory w (path_join w [directory, f]) = Inr True \<and>
    exploreDirectory n w (path_join w [directory, f]) matcher = Some (Inl err)
      \<longrightarrow> (\<exists>e. exploreDirectory (Suc n) w directory matcher = Some (Inl e)))"
proof (intro conjI impI)
  assume a: "fs_readdir w directory = Inr files \<and> f \<in> set (mm_not files IGNORE_GLOBS) \<and>
    fs_stat_isDirectory w (path_join w [directory, f]) = Inr False \<and>
    matcher (path_join w [directory, f]) \<and>
    parse w (path_join w [directory, f]) = Inl err"
  then have "evalueFilePath n w (path_join w [directory, f]) matcher = Some (Inl err)"
    by (simp add: evalueFilePath.simps checkIsDirectory_def exploreFile_def)
  moreover have "getDirectoryContents w directory =
      Inr (map (\<lambda>f. path_join w [directory, f]) (mm_not files IGNORE_GLOBS))"
    using a by (simp add: getDirectoryContents_def)
  moreover have "path_join w [directory, f] \<in>
      set (map (\<lambda>f. path_join w [directory, f]) (mm_not files IGNORE_GLOBS))"
    using a by simp
  ultimately show "\<exists>e. exploreDirectory (Suc n) w directory matcher = Some (Inl e)"
    by (rule exploreDirectory_child_rejects[rotated 2])
next
  assume a: "fs_readdir w directory = Inr files \<and> f \<in> set (mm_not files IGNORE_GLOBS) \<and>
    fs_stat_isDirectory w (path_join w [directory, f]) = Inr True \<and>
    exploreDirectory n w (path_join w [directory, f]) matcher = Some (Inl err)"
  then have "evalueFilePath n w (path_join w [directory, f]) matcher = Some (Inl err)"
    by (simp add: evalueFilePath.simps checkIsDirectory_def)
  moreover have "getDirectoryContents w directory =
      Inr (map (\<lambda>f. path_join w [directory, f]) (mm_not files IGNORE_GLOBS))"
    using a by (simp add: getDirectoryContents_def)
  moreover have "path_join w [directory, f] \<in>
      set (map (\<lambda>f. path_join w [directory, f]) (mm_not files IGNORE_GLOBS))"
    using a by simp
  ultimately show "\<exists>e. exploreDirectory (Suc n) w directory matcher = Some (Inl e)"
    by (rule exploreDirectory_child_rejects[rotated 2])
qed


theorem parse_failure_rejects_exploration_witness:
  "fs_readdir bad_file_world ''/r'' = Inr [''node_modules'', ''a.test.js'', ''b.test.js'']
   \<and> ''a.test.js'' \<in> set (mm_not [''node_modules'', ''a.test.js'', ''b.test.js''] IGNORE_GLOBS)
   \<and> fs_stat_isDirectory bad_file_world (path_join bad_file_world [''/r'', ''a.test.js''])
       = Inr False
   \<and> every_path (path_join bad_file_world [''/r'', ''a.test.js''])
   \<and> parse bad_file_world (path_join bad_file_world [''/r'', ''a.test.js''])
       = Inl (ParseError ''/r/a.test.js'')
   \<and> (\<exists>e. exploreDirectory (Suc 0) bad_file_world ''/r'' every_path = Some (Inl e))
   \<and> fs_readdir nested_world ''/'' = Inr [''r'']
   \<and> fs_stat_isDirectory nested_world (path_join nested_world [''/'', ''r'']) = Inr True
   \<and> exploreDirectory (Suc 0) nested_world (path_join nested_world [''/'', ''r'']) every_path
       = Some (Inl (ParseError ''/r/a.test.js''))
   \<and> (\<exists>e. exploreDirectory (Suc (Suc 0)) nested_world ''/'' every_path = Some (Inl e))"
proof -
  have h1: "fs_readdir bad_file_world ''/r'' = Inr [''node_modules'', ''a.test.js'', ''b.test.js'']"
    by (simp add: bad_file_world_def example_world_def)
  have h2: "''a.test.js'' \<in> set (mm_not [''node_modules'', ''a.test.js'', ''b.test.js''] IGNORE_GLOBS)"
    by (simp add: mm_not_def IGNORE_GLOBS_def)
  have h3: "fs_stat_isDirectory bad_file_world (path_join bad_file_world [''/r'', ''a.test.js''])
       = Inr False"
    by code_simp
  have h4: "every_path (path_join bad_file_world [''/r'', ''a.test.js''])"
    by (simp add: every_path_def)
  have h5: "parse bad_file_world (path_join bad_file_world [''/r'', ''a.test.js''])
       = Inl (ParseError ''/r/a.test.js'')"
    by code_simp
  have g1: "fs_readdir nested_world ''/'' = Inr [''r'']"
    by (simp add: nested_world_def bad_file_world_def example_world_def)
  have g2: "''r'' \<in> set (mm_not [''r''] IGNORE_GLOBS)"
    by (simp add: mm_not_def IGNORE_GLOBS_def)
  have g3: "fs_stat_isDirectory nested_world (path_join nested_world [''/'', ''r'']) = Inr True"
    by code_simp
  have g4: "exploreDirectory (Suc 0) nested_world (path_join nested_world [''/'', ''r'']) every_path
       = Some (Inl (ParseError ''/r/a.test.js''))"
    by code_simp
  note t1 = parse_failure_rejects_exploration [of bad_file_world "''/r''"
      "[''node_modules'', ''a.test.js'', ''b.test.js'']" "''a.test.js''" every_path
      "ParseError ''/r/a.test.js''" 0]
  note t2 = parse_failure_rejects_exploration [of nested_world "''/''"
      "[''r'']" "''r''" every_path "ParseError ''/r/a.test.js''" "Suc 0"]
  from t1 h1 h2 h3 h4 h5
  have a: "\<exists>e. exploreDirectory (Suc 0) bad_file_world ''/r'' every_path = Some (Inl e)"
    by blast
  from t2 g1 g2 g3 g4
  have b: "\<exists>e. exploreDirectory (Suc (Suc 0)) nested_world ''/'' every_path = Some (Inl e)"
    by blast
  from h1 h2 h3 h4 h5 a g1 g3 g4 b show ?thesis by (intro conjI)
qed

text \<open>
  C3 as stated fails: in the directory \<^verbatim>\<open>/r\<close>, where \<^verbatim>\<open>a.test.js\<close> cannot be
  parsed and \<^verbatim>\<open>b.test.js\<close> holds a test, the exploration is rejected with the
  parse error and returns no tree.
\<close>

theorem parse_failure_skipped_counterexample:
  "exploreDirectory 2 bad_file_world ''/r'' every_path = Some (Inl (ParseError ''/r/a.test.js''))"
  by code_simp

text \<open>
  C2, as the code has it.  When the exploration of the root directory is
  rejected, \<^verbatim>\<open>loadTests\<close> is rejected with the same error, and the only event
  it has fired is the started event: no finished event follows.
\<close>

theorem loadTests_rejected_emits_no_finished:
  assumes "createMatcher w (new_Settings w ws) = Inr matcher"
    and "exploreDirectory n w (rootPath ws) matcher = Some (Inl err)"
  shows "\<exists>run. loadTests n w ws = Some run \<and> outcome run = Inl err \<and>
               emitted run = [TestLoadStartedEvent]"
  using assms by (simp add: loadTests_def Let_def)


theorem loadTests_rejected_emits_no_finished_witness:
  "createMatcher unreadable_world (new_Settings unreadable_world example_workspace)
     = Inr (\<lambda>v. mm_any unreadable_world v
                   (testMatch (new_Settings unreadable_world example_workspace)))
   \<and> exploreDirectory (Suc 0) unreadable_world (rootPath example_workspace)
       (\<lambda>v. mm_any unreadable_world v
              (testMatch (new_Settings unreadable_world example_workspace)))
     = Some (Inl (FsError ''/r''))
   \<and> (\<exists>run. loadTests (Suc 0) unreadable_world example_workspace = Some run \<and>
             outcome run = Inl (FsError ''/r'') \<and> emitted run = [TestLoadStartedEvent])"
proof -
  have h1: "createMatcher unreadable_world (new_Settings unreadable_world example_workspace)
     = Inr (\<lambda>v. mm_any unreadable_world v
                   (testMatch (new_Settings unreadable_world example_workspace)))"
    by (simp add: createMatcher_def unreadable_world_def example_world_def)
  have h2: "exploreDirectory (Suc 0) unreadable_world (rootPath example_workspace)
       (\<lambda>v. mm_any unreadable_world v
              (testMatch (new_Settings unreadable_world example_workspace)))
     = Some (Inl (FsError ''/r''))"
    by (simp add: getDirectoryContents_def unreadable_world_def example_world_def
        example_workspace_def)
  from h1 h2 loadTests_rejected_emits_no_finished [OF h1 h2] show ?thesis by (intro conjI)
qed

text \<open>
  C2 as stated fails: when the root directory \<^verbatim>\<open>/r\<close> cannot be read,
  \<^verbatim>\<open>loadTests\<close> is rejected with the error of \<^verbatim>\<open>fs.readdir\<close> and has fired the
  started event only.
\<close>

theorem loadTests_finished_counterexample:
  "loadTests 1 unreadable_world example_workspace =
     Some \<lparr>emitted = [TestLoadStartedEvent],
           logged = [''Loading Jest settings from /r/jest.config.js'', ''Jest settings loaded'',
                     ''Loading Jest tests''],
           outcome = Inl (FsError ''/r'')\<rparr>"
  by code_simp

end
